theory Spec2Isabelle
  imports Main "HOL-Library.Word"
begin

unbundle bit_operations_syntax

section \<open>Raw buffers\<close>

text \<open>
  The vector operations of \<^verbatim>\<open>vector_operations.h\<close> work on raw pointers
  \<^verbatim>\<open>const T *x\<close>, \<^verbatim>\<open>T *y\<close>, which may point into the same block. The
  store is a partial map from cell addresses to elements of \<^verbatim>\<open>T\<close>; a pointer is
  the address of a cell and \<^verbatim>\<open>x[i]\<close> is the cell \<open>x + i\<close>. A cell outside the
  domain of the store belongs to no live buffer: reading or writing it is undefined
  behaviour in the source and the value \<open>None\<close> here. Every operation takes the store
  and returns its result together with the store it leaves.

  The count \<^verbatim>\<open>const ulong n\<close> and the loop index \<^verbatim>\<open>ulong i\<close> are natural
  numbers: the loops run \<^verbatim>\<open>i\<close> from 0 while \<^verbatim>\<open>i < n\<close>, so \<^verbatim>\<open>++i\<close>
  never exceeds \<^verbatim>\<open>n\<close> and cannot wrap.
\<close>

type_synonym ptr = nat

type_synonym 'a mem = "nat \<rightharpoonup> 'a"

type_synonym ('r, 'a) comp = "'a mem \<Rightarrow> ('r \<times> 'a mem) option"

definition read_at :: "ptr \<Rightarrow> ('a, 'a) comp" where
  "read_at p m = (case m p of None \<Rightarrow> None | Some v \<Rightarrow> Some (v, m))"

definition write_at :: "ptr \<Rightarrow> 'a \<Rightarrow> (unit, 'a) comp" where
  "write_at p v m = (case m p of None \<Rightarrow> None | Some _ \<Rightarrow> Some ((), m(p \<mapsto> v)))"

text \<open>A buffer of length at least \<open>n\<close> starts at \<open>p\<close>.\<close>

definition valid :: "'a mem \<Rightarrow> ptr \<Rightarrow> nat \<Rightarrow> bool" where
  "valid m p n = (\<forall>i \<in> {0..<n}. m (p + i) \<noteq> None)"

text \<open>The element \<^verbatim>\<open>p[i]\<close> of a live buffer.\<close>

definition elem :: "'a mem \<Rightarrow> ptr \<Rightarrow> nat \<Rightarrow> 'a" where
  "elem m p i = the (m (p + i))"

section \<open>\<^verbatim>\<open>vector_operations_unoptimized<T>\<close>\<close>

text \<open>
  \<^verbatim>\<open>T result{0}; for (ulong i = 0; i < n; ++i) result += x[i] * y[i]; return result;\<close>
\<close>

function dot_loop :: "nat \<Rightarrow> ptr \<Rightarrow> ptr \<Rightarrow> nat \<Rightarrow> 'a::{zero,plus,times} \<Rightarrow> ('a, 'a) comp" where
  "dot_loop n x y i result m =
     (if i < n then
        (case read_at (x + i) m of
           None \<Rightarrow> None
         | Some (xi, m1) \<Rightarrow>
             (case read_at (y + i) m1 of
                None \<Rightarrow> None
              | Some (yi, m2) \<Rightarrow> dot_loop n x y (i + 1) (result + xi * yi) m2))
      else Some (result, m))"
  by pat_completeness auto
termination
  by (relation "measure (\<lambda>(n, x, y, i, result, m). n - i)") auto

definition unoptimized_dot :: "nat \<Rightarrow> ptr \<Rightarrow> ptr \<Rightarrow> ('a::{zero,plus,times}, 'a) comp" where
  "unoptimized_dot n x y m = dot_loop n x y 0 0 m"

text \<open>
  \<^verbatim>\<open>std::accumulate(first, last, init)\<close>:
  \<^verbatim>\<open>for (; first != last; ++first) init = init + *first; return init;\<close>
  The accumulator has the promoted type; \<open>promote\<close> is the conversion of an element to
  it (\<^verbatim>\<open>promote.h\<close> chooses the type). \<^verbatim>\<open>sum\<close> calls it with
  \<open>first = x \<le> x + n = last\<close>, where \<^verbatim>\<open>first != last\<close> is \<open>first < last\<close>.
\<close>

function accumulate :: "('a \<Rightarrow> 'p) \<Rightarrow> ptr \<Rightarrow> ptr \<Rightarrow> 'p::plus \<Rightarrow> ('p, 'a) comp" where
  "accumulate promote first_it last_it init m =
     (if first_it < last_it then
        (case read_at first_it m of
           None \<Rightarrow> None
         | Some (v, m1) \<Rightarrow> accumulate promote (first_it + 1) last_it (init + promote v) m1)
      else Some (init, m))"
  by pat_completeness auto
termination
  by (relation "measure (\<lambda>(promote, first_it, last_it, init, m). last_it - first_it)") auto

definition unoptimized_sum :: "('a \<Rightarrow> 'p) \<Rightarrow> nat \<Rightarrow> ptr \<Rightarrow> ('p::{zero,plus}, 'a) comp" where
  "unoptimized_sum promote n x m = accumulate promote x (x + n) 0 m"

text \<open>\<^verbatim>\<open>for (ulong i = 0; i < n; ++i) x[i] *= alpha;\<close>\<close>

function scale_loop :: "nat \<Rightarrow> 'a::times \<Rightarrow> ptr \<Rightarrow> nat \<Rightarrow> (unit, 'a) comp" where
  "scale_loop n alpha x i m =
     (if i < n then
        (case read_at (x + i) m of
           None \<Rightarrow> None
         | Some (xi, m1) \<Rightarrow>
             (case write_at (x + i) (xi * alpha) m1 of
                None \<Rightarrow> None
              | Some (_, m2) \<Rightarrow> scale_loop n alpha x (i + 1) m2))
      else Some ((), m))"
  by pat_completeness auto
termination
  by (relation "measure (\<lambda>(n, alpha, x, i, m). n - i)") auto

definition unoptimized_scale :: "nat \<Rightarrow> 'a::times \<Rightarrow> ptr \<Rightarrow> (unit, 'a) comp" where
  "unoptimized_scale n alpha x m = scale_loop n alpha x 0 m"

text \<open>\<^verbatim>\<open>for (ulong i = 0; i < n; ++i) x[i] = alpha;\<close>\<close>

function set_loop :: "nat \<Rightarrow> 'a \<Rightarrow> ptr \<Rightarrow> nat \<Rightarrow> (unit, 'a) comp" where
  "set_loop n alpha x i m =
     (if i < n then
        (case write_at (x + i) alpha m of
           None \<Rightarrow> None
         | Some (_, m1) \<Rightarrow> set_loop n alpha x (i + 1) m1)
      else Some ((), m))"
  by pat_completeness auto
termination
  by (relation "measure (\<lambda>(n, alpha, x, i, m). n - i)") auto

definition unoptimized_set :: "nat \<Rightarrow> 'a \<Rightarrow> ptr \<Rightarrow> (unit, 'a) comp" where
  "unoptimized_set n alpha x m = set_loop n alpha x 0 m"

text \<open>\<^verbatim>\<open>for (ulong i = 0; i < n; ++i) y[i] += alpha * x[i];\<close>\<close>

function mult_incr_loop :: "nat \<Rightarrow> 'a::{plus,times} \<Rightarrow> ptr \<Rightarrow> ptr \<Rightarrow> nat \<Rightarrow> (unit, 'a) comp" where
  "mult_incr_loop n alpha x y i m =
     (if i < n then
        (case read_at (x + i) m of
           None \<Rightarrow> None
         | Some (xi, m1) \<Rightarrow>
             (case read_at (y + i) m1 of
                None \<Rightarrow> None
              | Some (yi, m2) \<Rightarrow>
                  (case write_at (y + i) (yi + alpha * xi) m2 of
                     None \<Rightarrow> None
                   | Some (_, m3) \<Rightarrow> mult_incr_loop n alpha x y (i + 1) m3)))
      else Some ((), m))"
  by pat_completeness auto
termination
  by (relation "measure (\<lambda>(n, alpha, x, y, i, m). n - i)") auto

definition unoptimized_mult_incr :: "nat \<Rightarrow> 'a::{plus,times} \<Rightarrow> ptr \<Rightarrow> ptr \<Rightarrow> (unit, 'a) comp" where
  "unoptimized_mult_incr n alpha x y m = mult_incr_loop n alpha x y 0 m"

text \<open>The contents of the \<open>n\<close> cells from \<open>p\<close>, and a store holding one block at address 0.\<close>

definition buf :: "'a mem \<Rightarrow> ptr \<Rightarrow> nat \<Rightarrow> 'a list" where
  "buf m p n = map (elem m p) [0..<n]"

definition cells :: "'a list \<Rightarrow> 'a mem" where
  "cells xs = (\<lambda>a. if a < length xs then Some (xs ! a) else None)"

text \<open>
  The element types \<^verbatim>\<open>float\<close> and \<^verbatim>\<open>double\<close> have values that are not
  numbers. In IEEE 754 arithmetic, which \<^verbatim>\<open>x[i] *= alpha\<close> and
  \<^verbatim>\<open>init + *first\<close> use on these types, an operation with a NaN operand,
  signalling or quiet, returns a quiet NaN. The numbers are represented by integers
  here and their sums and products are exact: rounding is not modelled, only the NaN
  rule is.
\<close>

datatype fp_value = SNaN | QNaN | Num int

instantiation fp_value :: "{zero,one,plus,times}"
begin

definition zero_fp_value :: fp_value where
  "zero_fp_value = Num 0"

definition one_fp_value :: fp_value where
  "one_fp_value = Num 1"

fun plus_fp_value :: "fp_value \<Rightarrow> fp_value \<Rightarrow> fp_value" where
  "plus_fp_value (Num a) (Num b) = Num (a + b)"
| "plus_fp_value a b = QNaN"

fun times_fp_value :: "fp_value \<Rightarrow> fp_value \<Rightarrow> fp_value" where
  "times_fp_value (Num a) (Num b) = Num (a * b)"
| "times_fp_value a b = QNaN"

instance ..

end

section \<open>\<^verbatim>\<open>vector_operations_cblas<T>\<close>\<close>

text \<open>
  A \<^verbatim>\<open>vector_operations\<close> struct is the record of its member functions.
  \<^verbatim>\<open>absolute_sum\<close> exists in the \<^verbatim>\<open>float\<close> and \<^verbatim>\<open>double\<close>
  specialisations only.
\<close>

record ('a, 'p) vector_operations =
  vo_absolute_sum :: "(nat \<Rightarrow> ptr \<Rightarrow> ('a, 'a) comp) option"
  vo_dot :: "nat \<Rightarrow> ptr \<Rightarrow> ptr \<Rightarrow> ('a, 'a) comp"
  vo_sum :: "nat \<Rightarrow> ptr \<Rightarrow> ('p, 'a) comp"
  vo_scale :: "nat \<Rightarrow> 'a \<Rightarrow> ptr \<Rightarrow> (unit, 'a) comp"
  vo_set :: "nat \<Rightarrow> 'a \<Rightarrow> ptr \<Rightarrow> (unit, 'a) comp"
  vo_mult_incr :: "nat \<Rightarrow> 'a \<Rightarrow> ptr \<Rightarrow> ptr \<Rightarrow> (unit, 'a) comp"

definition vector_operations_unoptimized ::
    "('a \<Rightarrow> 'p) \<Rightarrow> ('a::{zero,plus,times}, 'p::{zero,plus}) vector_operations" where
  "vector_operations_unoptimized promote =
     \<lparr>vo_absolute_sum = None,
      vo_dot = unoptimized_dot,
      vo_sum = unoptimized_sum promote,
      vo_scale = unoptimized_scale,
      vo_set = unoptimized_set,
      vo_mult_incr = unoptimized_mult_incr\<rparr>"

text \<open>
  The routines of \<^verbatim>\<open><cblas.h>\<close> at the precision of the element type
  (\<^verbatim>\<open>cblas_sasum\<close>, \<^verbatim>\<open>cblas_sdot\<close>, \<^verbatim>\<open>cblas_sscal\<close>,
  \<^verbatim>\<open>cblas_saxpy\<close>, \<^verbatim>\<open>catlas_sset\<close> for \<^verbatim>\<open>float\<close>; the
  \<^verbatim>\<open>d\<close> routines for \<^verbatim>\<open>double\<close>), with their stride arguments. They
  belong to the external library and are parameters here.
\<close>

record 'a cblas =
  cblas_asum :: "nat \<Rightarrow> ptr \<Rightarrow> nat \<Rightarrow> ('a, 'a) comp"
  cblas_dot :: "nat \<Rightarrow> ptr \<Rightarrow> nat \<Rightarrow> ptr \<Rightarrow> nat \<Rightarrow> ('a, 'a) comp"
  cblas_scal :: "nat \<Rightarrow> 'a \<Rightarrow> ptr \<Rightarrow> nat \<Rightarrow> (unit, 'a) comp"
  cblas_axpy :: "nat \<Rightarrow> 'a \<Rightarrow> ptr \<Rightarrow> nat \<Rightarrow> ptr \<Rightarrow> nat \<Rightarrow> (unit, 'a) comp"
  catlas_set :: "nat \<Rightarrow> 'a \<Rightarrow> ptr \<Rightarrow> nat \<Rightarrow> (unit, 'a) comp"

text \<open>Which specialisation of \<^verbatim>\<open>vector_operations_cblas\<close> the template argument selects.\<close>

datatype element_type = Float | Double | Other

text \<open>
  \<^verbatim>\<open>vector_operations_cblas_base<T>\<close>: \<^verbatim>\<open>sum\<close> and \<^verbatim>\<open>set\<close> call
  \<^verbatim>\<open>vector_operations_unoptimized<T>{}\<close>.
\<close>

definition cblas_base_sum :: "('a \<Rightarrow> 'p) \<Rightarrow> nat \<Rightarrow> ptr \<Rightarrow> ('p::{zero,plus}, 'a) comp" where
  "cblas_base_sum promote n x = unoptimized_sum promote n x"

definition cblas_base_set :: "nat \<Rightarrow> 'a \<Rightarrow> ptr \<Rightarrow> (unit, 'a) comp" where
  "cblas_base_set n alpha x = unoptimized_set n alpha x"

text \<open>
  The primary template inherits every member of \<^verbatim>\<open>vector_operations_unoptimized<T>\<close>;
  the two specialisations derive from the base and forward to the library with unit
  strides. \<open>catlas\<close> is \<^verbatim>\<open>TICK_CATLAS_AVAILABLE\<close>: when defined, the
  specialisation declares its own \<^verbatim>\<open>set\<close>.
\<close>

definition vector_operations_cblas ::
    "bool \<Rightarrow> 'a cblas \<Rightarrow> ('a \<Rightarrow> 'p) \<Rightarrow> element_type \<Rightarrow>
     ('a::{zero,plus,times}, 'p::{zero,plus}) vector_operations" where
  "vector_operations_cblas catlas lib promote t =
     (case t of
        Float \<Rightarrow>
          \<lparr>vo_absolute_sum = Some (\<lambda>n x. cblas_asum lib n x 1),
           vo_dot = (\<lambda>n x y. cblas_dot lib n x 1 y 1),
           vo_sum = cblas_base_sum promote,
           vo_scale = (\<lambda>n alpha x. cblas_scal lib n alpha x 1),
           vo_set = (if catlas then (\<lambda>n alpha x. catlas_set lib n alpha x 1) else cblas_base_set),
           vo_mult_incr = (\<lambda>n alpha x y. cblas_axpy lib n alpha x 1 y 1)\<rparr>
      | Double \<Rightarrow>
          \<lparr>vo_absolute_sum = Some (\<lambda>n x. cblas_asum lib n x 1),
           vo_dot = (\<lambda>n x y. cblas_dot lib n x 1 y 1),
           vo_sum = cblas_base_sum promote,
           vo_scale = (\<lambda>n alpha x. cblas_scal lib n alpha x 1),
           vo_set = (if catlas then (\<lambda>n alpha x. catlas_set lib n alpha x 1) else cblas_base_set),
           vo_mult_incr = (\<lambda>n alpha x y. cblas_axpy lib n alpha x 1 y 1)\<rparr>
      | Other \<Rightarrow> vector_operations_unoptimized promote)"

text \<open>
  \<^verbatim>\<open>tick::vector_operations<T>\<close>: the unoptimized struct when neither
  \<^verbatim>\<open>TICK_USE_BLAS\<close> nor \<^verbatim>\<open>TICK_USE_MKL\<close> is defined, the cblas one otherwise.
\<close>

definition vector_operations ::
    "bool \<Rightarrow> bool \<Rightarrow> 'a cblas \<Rightarrow> ('a \<Rightarrow> 'p) \<Rightarrow> element_type \<Rightarrow>
     ('a::{zero,plus,times}, 'p::{zero,plus}) vector_operations" where
  "vector_operations use_blas catlas lib promote t =
     (if \<not> use_blas then vector_operations_unoptimized promote
      else vector_operations_cblas catlas lib promote t)"

text \<open>A library every routine of which traps: what the primary template never calls.\<close>

definition no_cblas :: "'a cblas" where
  "no_cblas =
     \<lparr>cblas_asum = (\<lambda>n x incx m. None),
      cblas_dot = (\<lambda>n x incx y incy m. None),
      cblas_scal = (\<lambda>n alpha x incx m. None),
      cblas_axpy = (\<lambda>n alpha x incx y incy m. None),
      catlas_set = (\<lambda>n alpha x incx m. None)\<rparr>"

section \<open>Arrays\<close>

text \<open>
  The array classes and the serializer (\<^verbatim>\<open>tick/base/base.h\<close>,
  \<^verbatim>\<open>tick/array/serializer.h\<close>) are used by
  \<^verbatim>\<open>serializer_gtest.cpp\<close> but their code is not part of the sources
  verified here. Their definitions follow the specification's data model and component
  design. An array is a value: its shape fields and the contents of its buffers.
\<close>

text \<open>
  Modelled from the spec: the conditions of the error taxonomy (section 7) that the
  array classes raise; their code is missing.
\<close>

datatype error = DimensionMismatch | CorruptData | TypeMismatch

type_synonym ulong = "64 word"

type_synonym byte = "8 word"

text \<open>
  Modelled from the spec: the dense 1-D array class (missing),
  \<^verbatim>\<open>{ size: ulong, data: Buffer<T> }\<close>.
\<close>

record 'e array1d =
  size_1d :: ulong
  data_1d :: "'e list"

text \<open>
  Modelled from the spec: the dense 2-D array class (missing),
  \<^verbatim>\<open>{ n_rows, n_cols, data: Buffer<T> (row-major, length = n_rows*n_cols) }\<close>.
\<close>

record 'e array2d =
  n_rows_2d :: ulong
  n_cols_2d :: ulong
  data_2d :: "'e list"

text \<open>
  Modelled from the spec: the CSR array class (missing),
  \<^verbatim>\<open>{ n_rows, n_cols, row_indices, indices, data }\<close>. The index type
  (\<^verbatim>\<open>INDICE_TYPE\<close> in the test) is the parameter \<open>'i\<close>, an unsigned machine
  integer (a word of some width) wherever an array is used.
\<close>

record ('i, 'e) sparse_array2d =
  n_rows :: ulong
  n_cols :: ulong
  row_indices :: "'i list"
  indices :: "'i list"
  data :: "'e list"

text \<open>
  Modelled from the spec: ``any array (dense or sparse)'' that the serializer (missing)
  accepts.
\<close>

datatype ('i, 'e) any_array =
    Dense1d "'e array1d"
  | Dense2d "'e array2d"
  | Sparse2d "('i, 'e) sparse_array2d"

text \<open>
  Modelled from the spec: ``the caller supplies the expected concrete type at decode
  time'' (the template argument of the missing \<^verbatim>\<open>array_from_file\<close>).
\<close>

datatype layout = Dense1dT | Dense2dT | Sparse2dT

text \<open>Modelled from the spec: the concrete type of an array, for the missing serializer.\<close>

fun layout_of :: "('i, 'e) any_array \<Rightarrow> layout" where
  "layout_of (Dense1d a) = Dense1dT"
| "layout_of (Dense2d a) = Dense2dT"
| "layout_of (Sparse2d a) = Sparse2dT"

text \<open>
  Modelled from the spec: the length invariants of the data model of the missing array
  classes,
  \<^verbatim>\<open>data.length == size\<close>, \<^verbatim>\<open>data.length == n_rows*n_cols\<close> (a count that
  fits the \<^verbatim>\<open>ulong\<close> header field), \<^verbatim>\<open>row_indices\<close> of length
  \<^verbatim>\<open>n_rows+1\<close> and \<^verbatim>\<open>nnz == indices.length == data.length\<close>.
\<close>

fun shape_ok :: "('i, 'e) any_array \<Rightarrow> bool" where
  "shape_ok (Dense1d a) = (length (data_1d a) = unat (size_1d a))"
| "shape_ok (Dense2d a) =
     (length (data_2d a) = unat (n_rows_2d a) * unat (n_cols_2d a) \<and>
      unat (n_rows_2d a) * unat (n_cols_2d a) < 2 ^ 64)"
| "shape_ok (Sparse2d a) =
     (length (row_indices a) = unat (n_rows a) + 1 \<and>
      length (data a) = length (indices a) \<and>
      length (indices a) < 2 ^ 64)"

subsection \<open>Dense dot product\<close>

text \<open>
  Modelled from the spec: \<^verbatim>\<open>Array<T>::dot\<close> (missing) against another array
  of the same length.
  ``Dimensions of both operands must match for dot; mismatch fails with a
  DimensionMismatch condition''; otherwise the call is delegated to the vector operations
  selected at build time, on the two buffers (laid out one after the other in the store).
  \<open>Inr None\<close> is undefined behaviour of the primitive.
\<close>

definition array_dot ::
    "('e, 'p) vector_operations \<Rightarrow> 'e array1d \<Rightarrow> 'e array1d \<Rightarrow> error + 'e option" where
  "array_dot ops a b =
     (if size_1d a \<noteq> size_1d b then Inl DimensionMismatch
      else Inr (map_option fst
             (vo_dot ops (unat (size_1d a)) 0 (length (data_1d a))
                (cells (data_1d a @ data_1d b)))))"

subsection \<open>Sparse rows\<close>

text \<open>
  Modelled from the spec: \<^verbatim>\<open>view_row(sparse, r)\<close> (missing) is ``the column-index/value
  sub-sequence for row r, with a length equal to row_indices[r+1] - row_indices[r]''. A
  row or a segment out of range is undefined behaviour (\<open>None\<close>).
\<close>

definition view_row :: "('i::len word, 'e) sparse_array2d \<Rightarrow> nat \<Rightarrow> ('i word \<times> 'e) list option" where
  "view_row a r =
     (if r + 1 < length (row_indices a) then
        (let lo = unat (row_indices a ! r); hi = unat (row_indices a ! (r + 1)) in
         if lo \<le> hi \<and> hi \<le> length (indices a) \<and> hi \<le> length (data a)
         then Some (zip (take (hi - lo) (drop lo (indices a))) (take (hi - lo) (drop lo (data a))))
         else None)
      else None)"

text \<open>
  Modelled from the spec: \<^verbatim>\<open>dot(dense_vector, sparse_row_view)\<close> (missing)
  ``iterates the
  explicit (column, value) pairs in the row view and accumulates
  value * dense_vector[column]''. A column outside the dense vector is undefined
  behaviour (\<open>None\<close>).
\<close>

fun dot_sparse_loop :: "'e list \<Rightarrow> ('i::len word \<times> 'e) list \<Rightarrow> 'e::{plus,times} \<Rightarrow> 'e option" where
  "dot_sparse_loop dense [] result = Some result"
| "dot_sparse_loop dense ((column, v) # row) result =
     (if unat column < length dense
      then dot_sparse_loop dense row (result + v * dense ! unat column)
      else None)"

text \<open>
  Modelled from the spec: the call \<^verbatim>\<open>dense_vector.dot(row_view)\<close> of the missing
  array class; the accumulation starts from 0 and reads the first \<^verbatim>\<open>size\<close>
  elements of the dense vector.
\<close>

definition dot_sparse ::
    "'e::{zero,plus,times} array1d \<Rightarrow> ('i::len word \<times> 'e) list option \<Rightarrow> 'e option" where
  "dot_sparse dense_vector row_view =
     (case row_view of
        None \<Rightarrow> None
      | Some row \<Rightarrow> dot_sparse_loop (take (unat (size_1d dense_vector)) (data_1d dense_vector)) row 0)"

subsection \<open>Serialization codec\<close>

text \<open>
  Modelled from the spec: the byte encoding of the missing serializer. Header fields
  are \<^verbatim>\<open>ulong\<close> values and indices are \<^verbatim>\<open>INDICE_TYPE\<close> values,
  written as their bytes, least significant first.
\<close>

fun put_le :: "nat \<Rightarrow> 'a::len word \<Rightarrow> byte list" where
  "put_le 0 w = []"
| "put_le (Suc k) w = ucast w # put_le k (drop_bit 8 w)"

text \<open>Modelled from the spec: reading the bytes of a machine integer back (missing serializer).\<close>

fun get_le :: "byte list \<Rightarrow> 'a::len word" where
  "get_le [] = 0"
| "get_le (b # bs) = ucast b OR push_bit 8 (get_le bs)"

text \<open>
  Modelled from the spec: how the missing serializer writes a value of the element type,
  in a fixed number of bytes.
\<close>

record 'v codec =
  width :: nat
  encode :: "'v \<Rightarrow> byte list"
  decode :: "byte list \<Rightarrow> 'v"

text \<open>Modelled from the spec: a machine integer of whole bytes, written as its bytes (missing serializer).\<close>

definition word_codec :: "'a::len word codec" where
  "word_codec =
     \<lparr>width = LENGTH('a) div 8, encode = put_le (LENGTH('a) div 8), decode = get_le\<rparr>"

text \<open>
  Modelled from the spec: ``floating-point values round-trip bit-for-bit''; the missing
  serializer writes the 32-bit pattern of a \<^verbatim>\<open>float\<close> element.
\<close>

definition float_codec :: "32 word codec" where
  "float_codec = word_codec"

text \<open>
  Modelled from the spec: likewise the 64-bit pattern of a \<^verbatim>\<open>double\<close> element
  (missing serializer).
\<close>

definition double_codec :: "64 word codec" where
  "double_codec = word_codec"

text \<open>
  Modelled from the spec: ``numeric encoding must be exact'' (missing serializer). An
  exact codec: every value takes \<open>width\<close> bytes and is read back as it was, and every
  \<open>width\<close> bytes are the encoding of the value they decode to.
\<close>

definition exact :: "'v codec \<Rightarrow> bool" where
  "exact c \<longleftrightarrow>
     (\<forall>v. length (encode c v) = width c \<and> decode c (encode c v) = v) \<and>
     (\<forall>bs. length bs = width c \<longrightarrow> encode c (decode c bs) = bs)"

text \<open>Modelled from the spec: a header field of the missing serializer, 8 bytes.\<close>

definition put_ulong :: "ulong \<Rightarrow> byte list" where
  "put_ulong n = put_le 8 n"

text \<open>Modelled from the spec: reading a header field (missing serializer); \<open>None\<close> when the bytes end early.\<close>

definition get_ulong :: "byte list \<Rightarrow> (ulong \<times> byte list) option" where
  "get_ulong bs = (if length bs < 8 then None else Some (get_le (take 8 bs), drop 8 bs))"

text \<open>Modelled from the spec: a sequence of values, one after the other (missing serializer).\<close>

definition put_many :: "'v codec \<Rightarrow> 'v list \<Rightarrow> byte list" where
  "put_many c vs = concat (map (encode c) vs)"

text \<open>Modelled from the spec: reading \<open>n\<close> values (missing serializer); \<open>None\<close> when the bytes end early.\<close>

fun get_many :: "'v codec \<Rightarrow> nat \<Rightarrow> byte list \<Rightarrow> ('v list \<times> byte list) option" where
  "get_many c 0 bs = Some ([], bs)"
| "get_many c (Suc n) bs =
     (if length bs < width c then None
      else (case get_many c n (drop (width c) bs) of
              None \<Rightarrow> None
            | Some (vs, rest) \<Rightarrow> Some (decode c (take (width c) bs) # vs, rest)))"

text \<open>
  Modelled from the spec: the missing \<^verbatim>\<open>serialize\<close> on a dense 1-D array.
  ``Layout for dense: [rank][dim_0]...[dim_{rank-1}][element_count][elements...]''.
\<close>

definition serialize_dense1d :: "'e codec \<Rightarrow> 'e array1d \<Rightarrow> byte list" where
  "serialize_dense1d ec a =
     put_ulong 1 @ put_ulong (size_1d a) @ put_ulong (size_1d a) @ put_many ec (data_1d a)"

text \<open>
  Modelled from the spec: the missing \<^verbatim>\<open>serialize\<close> on a dense 2-D array, the
  same layout with rank 2.
\<close>

definition serialize_dense2d :: "'e codec \<Rightarrow> 'e array2d \<Rightarrow> byte list" where
  "serialize_dense2d ec a =
     put_ulong 2 @ put_ulong (n_rows_2d a) @ put_ulong (n_cols_2d a) @
     put_ulong (n_rows_2d a * n_cols_2d a) @ put_many ec (data_2d a)"

text \<open>
  Modelled from the spec: the missing \<^verbatim>\<open>serialize\<close> on a CSR array. ``Layout
  for sparse CSR 2-D:
  [n_rows][n_cols][nnz][row_indices...][col_indices...][values...]''.
\<close>

definition serialize_sparse2d :: "'e codec \<Rightarrow> ('i::len word, 'e) sparse_array2d \<Rightarrow> byte list" where
  "serialize_sparse2d ec a =
     put_ulong (n_rows a) @ put_ulong (n_cols a) @ put_ulong (of_nat (length (indices a))) @
     put_many word_codec (row_indices a) @ put_many word_codec (indices a) @
     put_many ec (data a)"

text \<open>Modelled from the spec: \<^verbatim>\<open>serialize(array)\<close> (missing), by the kind of array.\<close>

fun serialize :: "'e codec \<Rightarrow> ('i::len word, 'e) any_array \<Rightarrow> byte list" where
  "serialize ec (Dense1d a) = serialize_dense1d ec a"
| "serialize ec (Dense2d a) = serialize_dense2d ec a"
| "serialize ec (Sparse2d a) = serialize_sparse2d ec a"

text \<open>
  Modelled from the spec: the missing \<^verbatim>\<open>deserialize\<close> for a dense 1-D array.
  Decoding reads the layout back. ``Decoding a byte sequence
  whose declared type/shape is inconsistent with its data length [...] fails with a
  CorruptData condition'': the bytes end early, the element count is not the product of
  the dimensions, or bytes are left over. A decode ``requested with wrong concrete
  element/layout type'' (the rank is not that of the requested array) fails with
  TypeMismatch. The array is built only once every field has been read.
\<close>

definition deserialize_dense1d :: "'e codec \<Rightarrow> byte list \<Rightarrow> error + 'e array1d" where
  "deserialize_dense1d ec bs =
     (case get_ulong bs of
        None \<Rightarrow> Inl CorruptData
      | Some (rank, bs1) \<Rightarrow>
          if rank \<noteq> 1 then Inl TypeMismatch
          else (case get_ulong bs1 of
                  None \<Rightarrow> Inl CorruptData
                | Some (dim0, bs2) \<Rightarrow>
                    (case get_ulong bs2 of
                       None \<Rightarrow> Inl CorruptData
                     | Some (element_count, bs3) \<Rightarrow>
                         if element_count \<noteq> dim0 then Inl CorruptData
                         else (case get_many ec (unat element_count) bs3 of
                                 None \<Rightarrow> Inl CorruptData
                               | Some (elements, rest) \<Rightarrow>
                                   if rest \<noteq> [] then Inl CorruptData
                                   else Inr \<lparr>size_1d = dim0, data_1d = elements\<rparr>))))"

text \<open>
  Modelled from the spec: the missing \<^verbatim>\<open>deserialize\<close> for a dense 2-D array,
  with the same failures; the element count must be the product of the dimensions.
\<close>

definition deserialize_dense2d :: "'e codec \<Rightarrow> byte list \<Rightarrow> error + 'e array2d" where
  "deserialize_dense2d ec bs =
     (case get_ulong bs of
        None \<Rightarrow> Inl CorruptData
      | Some (rank, bs1) \<Rightarrow>
          if rank \<noteq> 2 then Inl TypeMismatch
          else (case get_ulong bs1 of
                  None \<Rightarrow> Inl CorruptData
                | Some (dim0, bs2) \<Rightarrow>
                    (case get_ulong bs2 of
                       None \<Rightarrow> Inl CorruptData
                     | Some (dim1, bs3) \<Rightarrow>
                         (case get_ulong bs3 of
                            None \<Rightarrow> Inl CorruptData
                          | Some (element_count, bs4) \<Rightarrow>
                              if unat element_count \<noteq> unat dim0 * unat dim1 then Inl CorruptData
                              else (case get_many ec (unat element_count) bs4 of
                                      None \<Rightarrow> Inl CorruptData
                                    | Some (elements, rest) \<Rightarrow>
                                        if rest \<noteq> [] then Inl CorruptData
                                        else Inr \<lparr>n_rows_2d = dim0, n_cols_2d = dim1,
                                                  data_2d = elements\<rparr>)))))"

text \<open>
  Modelled from the spec: the missing \<^verbatim>\<open>deserialize\<close> for a CSR array:
  \<^verbatim>\<open>n_rows+1\<close> row indices, then \<^verbatim>\<open>nnz\<close> column indices and
  \<^verbatim>\<open>nnz\<close> values, and \<open>CorruptData\<close> when the bytes end early or are left
  over.
\<close>

definition deserialize_sparse2d ::
    "'e codec \<Rightarrow> byte list \<Rightarrow> error + ('i::len word, 'e) sparse_array2d" where
  "deserialize_sparse2d ec bs =
     (case get_ulong bs of
        None \<Rightarrow> Inl CorruptData
      | Some (rows, bs1) \<Rightarrow>
          (case get_ulong bs1 of
             None \<Rightarrow> Inl CorruptData
           | Some (cols, bs2) \<Rightarrow>
               (case get_ulong bs2 of
                  None \<Rightarrow> Inl CorruptData
                | Some (nnz, bs3) \<Rightarrow>
                    (case get_many word_codec (unat rows + 1) bs3 of
                       None \<Rightarrow> Inl CorruptData
                     | Some (rs, bs4) \<Rightarrow>
                         (case get_many word_codec (unat nnz) bs4 of
                            None \<Rightarrow> Inl CorruptData
                          | Some (cs, bs5) \<Rightarrow>
                              (case get_many ec (unat nnz) bs5 of
                                 None \<Rightarrow> Inl CorruptData
                               | Some (vs, rest) \<Rightarrow>
                                   if rest \<noteq> [] then Inl CorruptData
                                   else Inr \<lparr>n_rows = rows, n_cols = cols, row_indices = rs,
                                             indices = cs, data = vs\<rparr>))))))"

text \<open>
  Modelled from the spec: \<^verbatim>\<open>deserialize(bytes)\<close> (missing) ``of the requested
  concrete type''.
\<close>

fun deserialize :: "'e codec \<Rightarrow> layout \<Rightarrow> byte list \<Rightarrow> error + ('i::len word, 'e) any_array" where
  "deserialize ec Dense1dT bs = map_sum id Dense1d (deserialize_dense1d ec bs)"
| "deserialize ec Dense2dT bs = map_sum id Dense2d (deserialize_dense2d ec bs)"
| "deserialize ec Sparse2dT bs = map_sum id Sparse2d (deserialize_sparse2d ec bs)"

subsection \<open>The test \<^verbatim>\<open>TEST(Serialize, SparseArray2d)\<close>\<close>

text \<open>
  The CSR matrix and the dense vector of \<^verbatim>\<open>serializer_gtest.cpp\<close>:
  \<^verbatim>\<open>SparseArrayDouble2d sparse_array(4, 6, row_indices.data(), indices.data(), data.data())\<close>
  and \<^verbatim>\<open>ArrayDouble dot_array{1, 2, 3, 4, 5, 6}\<close>.
\<close>

definition sparse_array :: "('i::len word, 'e::numeral) sparse_array2d" where
  "sparse_array =
     \<lparr>n_rows = 4, n_cols = 6,
      row_indices = [0, 2, 4, 7, 8],
      indices = [0, 1, 1, 3, 2, 3, 4, 5],
      data = [10, 20, 30, 40, 50, 60, 70, 80]\<rparr>"

definition dot_array :: "'e::numeral array1d" where
  "dot_array = \<lparr>size_1d = 6, data_1d = [1, 2, 3, 4, 5, 6]\<rparr>"

text \<open>The four values \<^verbatim>\<open>dot_array.dot(view_row(a, r))\<close>, \<open>r = 0, 1, 2, 3\<close>.\<close>

definition row_dots :: "('i::len word, 'e::{zero,numeral,times}) sparse_array2d \<Rightarrow> 'e option list" where
  "row_dots a = map (\<lambda>r. dot_sparse dot_array (view_row a r)) [0, 1, 2, 3]"

section \<open>Properties of the store and of the loops\<close>

declare dot_loop.simps [simp del] accumulate.simps [simp del] scale_loop.simps [simp del]
  set_loop.simps [simp del] mult_incr_loop.simps [simp del]

lemma read_at_elem: "m (p + i) \<noteq> None \<Longrightarrow> read_at (p + i) m = Some (elem m p i, m)"
  by (auto simp: read_at_def elem_def)

lemma write_at_Some: "m p \<noteq> None \<Longrightarrow> write_at p v m = Some ((), m(p \<mapsto> v))"
  by (auto simp: write_at_def)

lemma validD: "valid m p n \<Longrightarrow> i < n \<Longrightarrow> m (p + i) \<noteq> None"
  by (simp add: valid_def)

lemma valid_upd: "valid m p n \<Longrightarrow> valid (m(a \<mapsto> v)) p n"
  by (simp add: valid_def)

lemma cells_apply: "cells xs a = (if a < length xs then Some (xs ! a) else None)"
  by (simp add: cells_def)

lemma cells_upd: "a < length xs \<Longrightarrow> (cells xs)(a \<mapsto> v) = cells (xs[a := v])"
  by (auto simp: cells_def fun_eq_iff)

lemma valid_cells: "p + n \<le> length xs \<Longrightarrow> valid (cells xs) p n"
  by (auto simp: valid_def cells_def)

lemma buf_cells: "n \<le> length xs \<Longrightarrow> buf (cells xs) 0 n = take n xs"
  by (auto simp: buf_def elem_def cells_def list_eq_iff_nth_eq)

text \<open>What each loop leaves, started at index \<open>i\<close> on live buffers.\<close>

lemma set_loop_run:
  "valid m x n \<Longrightarrow>
   set_loop n alpha x i m = Some ((), \<lambda>a. if x + i \<le> a \<and> a < x + n then Some alpha else m a)"
proof (induction n alpha x i m rule: set_loop.induct)
  case (1 n alpha x i m)
  show ?case
  proof (cases "i < n")
    case True
    have w: "write_at (x + i) alpha m = Some ((), m(x + i \<mapsto> alpha))"
      using validD [OF "1.prems" True] by (rule write_at_Some)
    have "set_loop n alpha x (i + 1) (m(x + i \<mapsto> alpha)) =
          Some ((), \<lambda>a. if x + (i + 1) \<le> a \<and> a < x + n then Some alpha else (m(x + i \<mapsto> alpha)) a)"
      by (rule "1.IH" [OF True w refl valid_upd [OF "1.prems"]])
    moreover have "(\<lambda>a. if x + (i + 1) \<le> a \<and> a < x + n then Some alpha else (m(x + i \<mapsto> alpha)) a)
         = (\<lambda>a. if x + i \<le> a \<and> a < x + n then Some alpha else m a)"
      using True by (auto simp: fun_eq_iff)
    ultimately show ?thesis
      using True w by (subst set_loop.simps) simp
  next
    case False
    then show ?thesis
      by (subst set_loop.simps) (auto simp: fun_eq_iff)
  qed
qed

lemma scale_loop_run:
  "valid m x n \<Longrightarrow>
   scale_loop n alpha x i m =
     Some ((), \<lambda>a. if x + i \<le> a \<and> a < x + n then Some (the (m a) * alpha) else m a)"
proof (induction n alpha x i m rule: scale_loop.induct)
  case (1 n alpha x i m)
  show ?case
  proof (cases "i < n")
    case True
    have r: "read_at (x + i) m = Some (elem m x i, m)"
      using validD [OF "1.prems" True] by (rule read_at_elem)
    have w: "write_at (x + i) (elem m x i * alpha) m = Some ((), m(x + i \<mapsto> elem m x i * alpha))"
      using validD [OF "1.prems" True] by (rule write_at_Some)
    let ?m1 = "m(x + i \<mapsto> elem m x i * alpha)"
    have "scale_loop n alpha x (i + 1) ?m1 =
          Some ((), \<lambda>a. if x + (i + 1) \<le> a \<and> a < x + n then Some (the (?m1 a) * alpha) else ?m1 a)"
      by (rule "1.IH" [OF True r refl w refl valid_upd [OF "1.prems"]])
    moreover have "(\<lambda>a. if x + (i + 1) \<le> a \<and> a < x + n then Some (the (?m1 a) * alpha) else ?m1 a)
         = (\<lambda>a. if x + i \<le> a \<and> a < x + n then Some (the (m a) * alpha) else m a)"
      using True by (auto simp: fun_eq_iff elem_def)
    ultimately show ?thesis
      using True r w by (subst scale_loop.simps) simp
  next
    case False
    then show ?thesis
      by (subst scale_loop.simps) (auto simp: fun_eq_iff)
  qed
qed

lemma dot_loop_run:
  "valid m x n \<Longrightarrow> valid m y n \<Longrightarrow>
   dot_loop n x y i r m =
     Some (foldl (\<lambda>acc k. acc + elem m x k * elem m y k) r [i..<n], m)"
proof (induction n x y i r m rule: dot_loop.induct)
  case (1 n x y i r m)
  show ?case
  proof (cases "i < n")
    case True
    have rx: "read_at (x + i) m = Some (elem m x i, m)"
      using validD [OF "1.prems"(1) True] by (rule read_at_elem)
    have ry: "read_at (y + i) m = Some (elem m y i, m)"
      using validD [OF "1.prems"(2) True] by (rule read_at_elem)
    have "dot_loop n x y (i + 1) (r + elem m x i * elem m y i) m =
          Some (foldl (\<lambda>acc k. acc + elem m x k * elem m y k) (r + elem m x i * elem m y i) [i + 1..<n], m)"
      by (rule "1.IH" [OF True rx refl ry refl "1.prems"])
    then show ?thesis
      using True rx ry by (subst dot_loop.simps) (simp add: upt_conv_Cons)
  next
    case False
    then show ?thesis
      by (subst dot_loop.simps) simp
  qed
qed

lemma accumulate_run:
  "(\<forall>a. f \<le> a \<and> a < l \<longrightarrow> m a \<noteq> None) \<Longrightarrow>
   accumulate promote f l init m =
     Some (foldl (\<lambda>acc a. acc + promote (the (m a))) init [f..<l], m)"
proof (induction promote f l init m rule: accumulate.induct)
  case (1 promote f l init m)
  show ?case
  proof (cases "f < l")
    case True
    have r: "read_at f m = Some (the (m f), m)"
      using "1.prems" True by (auto simp: read_at_def)
    have "accumulate promote (f + 1) l (init + promote (the (m f))) m =
          Some (foldl (\<lambda>acc a. acc + promote (the (m a))) (init + promote (the (m f))) [f + 1..<l], m)"
      using "1.prems" by (intro "1.IH" [OF True r refl]) auto
    then show ?thesis
      using True r by (subst accumulate.simps) (simp add: upt_conv_Cons)
  next
    case False
    then show ?thesis
      by (subst accumulate.simps) simp
  qed
qed

lemma foldl_shift:
  "foldl (\<lambda>acc a. acc + g (the (m a))) init [x + i..<x + n] =
   foldl (\<lambda>acc v. acc + g v) init (map (elem m x) [i..<n])"
proof (induction "n - i" arbitrary: i init)
  case 0
  then show ?case by simp
next
  case (Suc d)
  then have "i < n" by simp
  then show ?case
    using Suc.hyps(1) [of "Suc i" "init + g (the (m (x + i)))"] Suc.hyps(2)
    by (simp add: upt_conv_Cons elem_def)
qed

lemma unoptimized_sum_run:
  assumes "valid m x n"
  shows "unoptimized_sum promote n x m = Some (foldl (\<lambda>acc v. acc + promote v) 0 (buf m x n), m)"
proof -
  have "\<forall>a. x \<le> a \<and> a < x + n \<longrightarrow> m a \<noteq> None"
  proof (intro allI impI)
    fix a assume "x \<le> a \<and> a < x + n"
    then have "a - x < n" "a = x + (a - x)" by auto
    then show "m a \<noteq> None" using validD [OF assms, of "a - x"] by simp
  qed
  then show ?thesis
    using foldl_shift [of promote m 0 x 0 n]
    by (simp add: unoptimized_sum_def accumulate_run buf_def)
qed

text \<open>
  \<^verbatim>\<open>mult_incr\<close> writes to the cells of \<open>y\<close> only, whatever the overlap of the
  two buffers.
\<close>

lemma mult_incr_loop_frame:
  "valid m x n \<Longrightarrow> valid m y n \<Longrightarrow>
   \<exists>m'. mult_incr_loop n alpha x y i m = Some ((), m') \<and> dom m' = dom m \<and>
        (\<forall>a. \<not> (y + i \<le> a \<and> a < y + n) \<longrightarrow> m' a = m a)"
proof (induction n alpha x y i m rule: mult_incr_loop.induct)
  case (1 n alpha x y i m)
  show ?case
  proof (cases "i < n")
    case True
    have rx: "read_at (x + i) m = Some (elem m x i, m)"
      using validD [OF "1.prems"(1) True] by (rule read_at_elem)
    have ry: "read_at (y + i) m = Some (elem m y i, m)"
      using validD [OF "1.prems"(2) True] by (rule read_at_elem)
    let ?m1 = "m(y + i \<mapsto> elem m y i + alpha * elem m x i)"
    have w: "write_at (y + i) (elem m y i + alpha * elem m x i) m = Some ((), ?m1)"
      using validD [OF "1.prems"(2) True] by (rule write_at_Some)
    obtain m' where m': "mult_incr_loop n alpha x y (i + 1) ?m1 = Some ((), m')"
      "dom m' = dom ?m1" "\<forall>a. \<not> (y + (i + 1) \<le> a \<and> a < y + n) \<longrightarrow> m' a = ?m1 a"
      using "1.IH" [OF True rx refl ry refl w refl valid_upd [OF "1.prems"(1)] valid_upd [OF "1.prems"(2)]]
      by blast
    have "mult_incr_loop n alpha x y i m = Some ((), m')"
      using True rx ry w m'(1) by (subst mult_incr_loop.simps) simp
    moreover have "dom m' = dom m"
      using m'(2) validD [OF "1.prems"(2) True] by auto
    moreover have "\<forall>a. \<not> (y + i \<le> a \<and> a < y + n) \<longrightarrow> m' a = m a"
      using m'(3) True by auto
    ultimately show ?thesis by blast
  next
    case False
    then show ?thesis
      by (subst mult_incr_loop.simps) simp
  qed
qed

text \<open>
  When \<open>y\<close> does not start inside \<open>x[1..n)\<close>, no cell of \<open>x\<close> is written before the
  loop reads it.
\<close>

lemma mult_incr_loop_run:
  "valid m x n \<Longrightarrow> valid m y n \<Longrightarrow> \<not> (x < y \<and> y < x + n) \<Longrightarrow>
   mult_incr_loop n alpha x y i m =
     Some ((), \<lambda>a. if y + i \<le> a \<and> a < y + n
                    then Some (the (m a) + alpha * the (m (x + (a - y)))) else m a)"
proof (induction n alpha x y i m rule: mult_incr_loop.induct)
  case (1 n alpha x y i m)
  show ?case
  proof (cases "i < n")
    case True
    have rx: "read_at (x + i) m = Some (elem m x i, m)"
      using validD [OF "1.prems"(1) True] by (rule read_at_elem)
    have ry: "read_at (y + i) m = Some (elem m y i, m)"
      using validD [OF "1.prems"(2) True] by (rule read_at_elem)
    let ?m1 = "m(y + i \<mapsto> elem m y i + alpha * elem m x i)"
    have w: "write_at (y + i) (elem m y i + alpha * elem m x i) m = Some ((), ?m1)"
      using validD [OF "1.prems"(2) True] by (rule write_at_Some)
    have ih: "mult_incr_loop n alpha x y (i + 1) ?m1 =
          Some ((), \<lambda>a. if y + (i + 1) \<le> a \<and> a < y + n
                    then Some (the (?m1 a) + alpha * the (?m1 (x + (a - y)))) else ?m1 a)"
      by (rule "1.IH" [OF True rx refl ry refl w refl valid_upd [OF "1.prems"(1)]
            valid_upd [OF "1.prems"(2)] "1.prems"(3)])
    have "(\<lambda>a. if y + (i + 1) \<le> a \<and> a < y + n
                    then Some (the (?m1 a) + alpha * the (?m1 (x + (a - y)))) else ?m1 a)
        = (\<lambda>a. if y + i \<le> a \<and> a < y + n
                    then Some (the (m a) + alpha * the (m (x + (a - y)))) else m a)"
    proof
      fix a
      show "(if y + (i + 1) \<le> a \<and> a < y + n
                    then Some (the (?m1 a) + alpha * the (?m1 (x + (a - y)))) else ?m1 a)
        = (if y + i \<le> a \<and> a < y + n
                    then Some (the (m a) + alpha * the (m (x + (a - y)))) else m a)"
      proof (cases "y + (i + 1) \<le> a \<and> a < y + n")
        case later: True
        then have "x + (a - y) \<noteq> y + i"
          using "1.prems"(3) by auto
        then show ?thesis using later by auto
      next
        case False
        then show ?thesis using True by (auto simp: elem_def)
      qed
    qed
    then show ?thesis
      using True rx ry w ih by (subst mult_incr_loop.simps) simp
  next
    case False
    then show ?thesis
      by (subst mult_incr_loop.simps) (auto simp: fun_eq_iff)
  qed
qed

text \<open>Sums of machine integers, accumulated in the promoted type.\<close>

lemma foldl_ucast_sum:
  fixes vs :: "'a::len word list" and init :: "'b::len word"
  shows "foldl (\<lambda>acc v. acc + ucast v) init vs = init + of_nat (sum_list (map unat vs))"
  by (induction vs arbitrary: init) (simp_all add: add.assoc)

lemma foldl_scast_sum:
  fixes vs :: "'a::len word list" and init :: "'b::len word"
  shows "foldl (\<lambda>acc v. acc + scast v) init vs = init + of_int (sum_list (map sint vs))"
  by (induction vs arbitrary: init) (simp_all add: add.assoc)

lemma sint_of_int_in_range:
  "- (2 ^ (LENGTH('b::len) - 1)) \<le> k \<Longrightarrow> k < 2 ^ (LENGTH('b) - 1) \<Longrightarrow> sint (of_int k :: 'b word) = k"
  by (simp add: sint_sbintrunc' signed_take_bit_int_eq_self)

section \<open>Properties of the codec\<close>

lemma length_put_le: "length (put_le k w) = k"
  by (induction k arbitrary: w) simp_all

lemma get_put_le: "get_le (put_le k w) = take_bit (8 * k) (w :: 'a::len word)"
proof (induction k arbitrary: w)
  case 0
  then show ?case by simp
next
  case (Suc k)
  have "(ucast (ucast w :: byte) :: 'a word) OR push_bit 8 (take_bit (8 * k) (drop_bit 8 w))
        = take_bit (8 * Suc k) w"
    by (rule bit_word_eqI) (auto simp: bit_simps)
  then show ?case by (simp add: Suc.IH)
qed

lemma get_put_le_id: "LENGTH('a) \<le> 8 * k \<Longrightarrow> get_le (put_le k w) = (w :: 'a::len word)"
  by (simp add: get_put_le take_bit_word_eq_self)

lemma put_le_take_bit: "8 * k \<le> n \<Longrightarrow> put_le k (take_bit n w) = put_le k (w :: 'a::len word)"
proof (induction k arbitrary: w n)
  case 0
  then show ?case by simp
next
  case (Suc k)
  have a: "(ucast (take_bit n w) :: byte) = ucast w"
    using Suc.prems by (intro bit_word_eqI) (auto simp: bit_simps)
  have b: "drop_bit 8 (take_bit n w) = take_bit (n - 8) (drop_bit 8 w)"
    by (rule bit_word_eqI) (auto simp: bit_simps)
  show ?case
    using Suc.prems by (simp add: a b Suc.IH)
qed

lemma ucast_low_byte:
  "8 \<le> LENGTH('a) \<Longrightarrow> ucast (ucast b OR push_bit 8 g :: 'a::len word) = (b :: byte)"
  by (rule bit_word_eqI) (auto simp: bit_simps)

lemma drop_low_byte:
  "drop_bit 8 (ucast (b :: byte) OR push_bit 8 g :: 'a::len word) = take_bit (LENGTH('a) - 8) g"
  by (rule bit_word_eqI) (auto simp: bit_simps dest: bit_imp_le_length)

lemma put_get_le:
  "8 * length bs \<le> LENGTH('a) \<Longrightarrow> put_le (length bs) (get_le bs :: 'a::len word) = bs"
proof (induction bs)
  case Nil
  then show ?case by simp
next
  case (Cons b bs)
  then have l: "8 \<le> LENGTH('a)" and r: "8 * length bs \<le> LENGTH('a) - 8" by simp_all
  let ?w = "ucast b OR push_bit 8 (get_le bs) :: 'a word"
  have "put_le (length (b # bs)) (get_le (b # bs) :: 'a word) = ucast ?w # put_le (length bs) (drop_bit 8 ?w)"
    by simp
  also have "ucast ?w = b"
    by (rule ucast_low_byte [OF l])
  also have "put_le (length bs) (drop_bit 8 ?w) = bs"
    using Cons.IH r by (simp only: drop_low_byte put_le_take_bit)
  finally show ?case .
qed

lemma exact_word_codec: "8 dvd LENGTH('a::len) \<Longrightarrow> exact (word_codec :: 'a word codec)"
proof -
  assume d: "8 dvd LENGTH('a)"
  then have e: "8 * (LENGTH('a) div 8) = LENGTH('a)" by simp
  have "put_le (LENGTH('a) div 8) (get_le bs :: 'a word) = bs" if "length bs = LENGTH('a) div 8" for bs
    using put_get_le [of bs, where ?'a = 'a] that e by simp
  then show ?thesis
    using e by (simp add: exact_def word_codec_def length_put_le get_put_le_id)
qed

lemma exact_length: "exact c \<Longrightarrow> length (encode c v) = width c"
  by (simp add: exact_def)

lemma exact_decode: "exact c \<Longrightarrow> decode c (encode c v) = v"
  by (simp add: exact_def)

lemma exact_encode: "exact c \<Longrightarrow> length bs = width c \<Longrightarrow> encode c (decode c bs) = bs"
  by (simp add: exact_def)

lemma get_many_put_many:
  "exact c \<Longrightarrow> get_many c (length vs) (put_many c vs @ rest) = Some (vs, rest)"
proof (induction vs)
  case Nil
  then show ?case by (simp add: put_many_def)
next
  case (Cons v vs)
  have "put_many c (v # vs) @ rest = encode c v @ (put_many c vs @ rest)"
    by (simp add: put_many_def)
  then show ?case
    using Cons by (simp add: exact_length exact_decode)
qed

lemma get_many_Some:
  "exact c \<Longrightarrow> get_many c n bs = Some (vs, rest) \<Longrightarrow> length vs = n \<and> bs = put_many c vs @ rest"
proof (induction n arbitrary: bs vs)
  case 0
  then show ?case by (simp add: put_many_def)
next
  case (Suc n)
  from Suc.prems(2) obtain vs' where
    w: "width c \<le> length bs" and
    g: "get_many c n (drop (width c) bs) = Some (vs', rest)" and
    v: "vs = decode c (take (width c) bs) # vs'"
    by (auto split: if_splits option.splits)
  from Suc.IH [OF Suc.prems(1) g] have l: "length vs' = n" and d: "drop (width c) bs = put_many c vs' @ rest"
    by simp_all
  have "encode c (decode c (take (width c) bs)) = take (width c) bs"
    using w by (intro exact_encode [OF Suc.prems(1)]) simp
  then have "put_many c vs @ rest = take (width c) bs @ drop (width c) bs"
    by (simp add: v put_many_def d [unfolded put_many_def])
  then show ?case by (simp add: v l)
qed

lemma get_ulong_put_ulong: "get_ulong (put_ulong n @ rest) = Some (n, rest)"
  by (simp add: get_ulong_def put_ulong_def length_put_le get_put_le_id)

lemma get_ulong_Some: "get_ulong bs = Some (n, rest) \<Longrightarrow> bs = put_ulong n @ rest"
proof -
  assume "get_ulong bs = Some (n, rest)"
  then have l: "8 \<le> length bs" and n: "n = get_le (take 8 bs)" and r: "rest = drop 8 bs"
    by (auto simp: get_ulong_def split: if_splits)
  have l8: "length (take 8 bs) = 8"
    using l by simp
  have "put_le (length (take 8 bs)) (get_le (take 8 bs) :: ulong) = take 8 bs"
    using l by (intro put_get_le) simp
  then have "put_ulong n = take 8 bs"
    by (simp only: put_ulong_def n l8)
  then show ?thesis by (simp add: r)
qed

lemma roundtrip_dense1d:
  assumes "exact ec" and "length (data_1d a) = unat (size_1d a)"
  shows "deserialize_dense1d ec (serialize_dense1d ec a) = Inr a"
  using get_many_put_many [OF assms(1), of "data_1d a" "[]"] assms(2)
  by (simp add: deserialize_dense1d_def serialize_dense1d_def get_ulong_put_ulong)

lemma roundtrip_dense2d:
  assumes "exact ec" and "length (data_2d a) = unat (n_rows_2d a) * unat (n_cols_2d a)"
    and "unat (n_rows_2d a) * unat (n_cols_2d a) < 2 ^ 64"
  shows "deserialize_dense2d ec (serialize_dense2d ec a) = Inr a"
proof -
  have "unat (n_rows_2d a * n_cols_2d a) = unat (n_rows_2d a) * unat (n_cols_2d a)"
    using assms(3) by (simp add: unat_word_ariths)
  then show ?thesis
    using get_many_put_many [OF assms(1), of "data_2d a" "[]"] assms(2)
    by (simp add: deserialize_dense2d_def serialize_dense2d_def get_ulong_put_ulong)
qed

lemma roundtrip_sparse2d:
  fixes a :: "('i::len word, 'e) sparse_array2d"
  assumes "exact ec" and "8 dvd LENGTH('i)"
    and "length (row_indices a) = unat (n_rows a) + 1"
    and "length (data a) = length (indices a)" and "length (indices a) < 2 ^ 64"
  shows "deserialize_sparse2d ec (serialize_sparse2d ec a) = Inr a"
proof -
  have n: "unat (of_nat (length (indices a)) :: ulong) = length (indices a)"
    using assms(5) by (simp add: unat_of_nat)
  have ic: "exact (word_codec :: 'i word codec)"
    by (rule exact_word_codec [OF assms(2)])
  have r: "get_many word_codec (Suc (unat (n_rows a))) (put_many word_codec (row_indices a) @ rest) =
        Some (row_indices a, rest)" for rest
    using get_many_put_many [OF ic, of "row_indices a" rest] assms(3) by simp
  have c: "get_many word_codec (length (indices a)) (put_many word_codec (indices a) @ rest) =
        Some (indices a, rest)" for rest
    by (rule get_many_put_many [OF ic])
  have d: "get_many ec (length (indices a)) (put_many ec (data a)) = Some (data a, [])"
    using get_many_put_many [OF assms(1), of "data a" "[]"] assms(4) by simp
  show ?thesis
    by (simp add: deserialize_sparse2d_def serialize_sparse2d_def get_ulong_put_ulong n r c d
        del: get_many.simps)
qed

lemma deserialize_dense1d_Inr:
  assumes "exact ec" and "deserialize_dense1d ec bs = Inr a"
  shows "length (data_1d a) = unat (size_1d a) \<and> serialize_dense1d ec a = bs"
proof -
  from assms(2) obtain bs1 bs2 bs3 dim0 elements where
    g1: "get_ulong bs = Some (1, bs1)" and g2: "get_ulong bs1 = Some (dim0, bs2)" and
    g3: "get_ulong bs2 = Some (dim0, bs3)" and
    g4: "get_many ec (unat dim0) bs3 = Some (elements, [])" and
    a: "a = \<lparr>size_1d = dim0, data_1d = elements\<rparr>"
    by (auto simp: deserialize_dense1d_def split: option.splits if_splits)
  show ?thesis
    using get_ulong_Some [OF g1] get_ulong_Some [OF g2] get_ulong_Some [OF g3]
      get_many_Some [OF assms(1) g4]
    by (simp add: a serialize_dense1d_def)
qed

lemma deserialize_dense2d_Inr:
  assumes "exact ec" and "deserialize_dense2d ec bs = Inr a"
  shows "length (data_2d a) = unat (n_rows_2d a) * unat (n_cols_2d a) \<and>
         unat (n_rows_2d a) * unat (n_cols_2d a) < 2 ^ 64 \<and> serialize_dense2d ec a = bs"
proof -
  from assms(2) obtain bs1 bs2 bs3 bs4 dim0 dim1 element_count elements where
    g1: "get_ulong bs = Some (2, bs1)" and g2: "get_ulong bs1 = Some (dim0, bs2)" and
    g3: "get_ulong bs2 = Some (dim1, bs3)" and g4: "get_ulong bs3 = Some (element_count, bs4)" and
    e: "unat element_count = unat dim0 * unat dim1" and
    g5: "get_many ec (unat element_count) bs4 = Some (elements, [])" and
    a: "a = \<lparr>n_rows_2d = dim0, n_cols_2d = dim1, data_2d = elements\<rparr>"
    by (auto simp: deserialize_dense2d_def split: option.splits if_splits)
  have lt: "unat dim0 * unat dim1 < 2 ^ 64"
    using unsigned_less [of element_count, where ?'a = nat] e by simp
  have "unat (dim0 * dim1) = unat element_count"
    using lt e by (simp add: unat_word_ariths)
  then have ec: "dim0 * dim1 = element_count"
    by (simp add: word_unat_eq_iff)
  show ?thesis
    using get_ulong_Some [OF g1] get_ulong_Some [OF g2] get_ulong_Some [OF g3]
      get_ulong_Some [OF g4] get_many_Some [OF assms(1) g5] lt e
    by (simp add: a serialize_dense2d_def ec)
qed

lemma deserialize_sparse2d_Inr:
  fixes a :: "('i::len word, 'e) sparse_array2d"
  assumes "exact ec" and "8 dvd LENGTH('i)" and "deserialize_sparse2d ec bs = Inr a"
  shows "length (row_indices a) = unat (n_rows a) + 1 \<and> length (data a) = length (indices a) \<and>
         length (indices a) < 2 ^ 64 \<and> serialize_sparse2d ec a = bs"
proof -
  have ic: "exact (word_codec :: 'i word codec)"
    by (rule exact_word_codec [OF assms(2)])
  from assms(3) obtain bs1 bs2 bs3 bs4 bs5 rows cols nnz and rs cs :: "'i word list" and vs where
    g1: "get_ulong bs = Some (rows, bs1)" and g2: "get_ulong bs1 = Some (cols, bs2)" and
    g3: "get_ulong bs2 = Some (nnz, bs3)" and
    g4: "get_many word_codec (unat rows + 1) bs3 = Some (rs, bs4)" and
    g5: "get_many word_codec (unat nnz) bs4 = Some (cs, bs5)" and
    g6: "get_many ec (unat nnz) bs5 = Some (vs, [])" and
    a: "a = \<lparr>n_rows = rows, n_cols = cols, row_indices = rs, indices = cs, data = vs\<rparr>"
    by (auto simp: deserialize_sparse2d_def simp del: get_many.simps split: option.splits if_splits)
  have lt: "unat nnz < 2 ^ 64"
    using unsigned_less [of nnz, where ?'a = nat] by simp
  show ?thesis
    using get_ulong_Some [OF g1] get_ulong_Some [OF g2] get_ulong_Some [OF g3]
      get_many_Some [OF ic g4] get_many_Some [OF ic g5] get_many_Some [OF assms(1) g6] lt
    by (simp add: a serialize_sparse2d_def)
qed


lemma get_ulong_short: "length bs < 8 \<Longrightarrow> get_ulong bs = None"
  by (simp add: get_ulong_def)

lemma exact_float_codec: "exact float_codec"
  by (simp add: float_codec_def exact_word_codec)

lemma exact_double_codec: "exact double_codec"
  by (simp add: double_codec_def exact_word_codec)

lemma deserialize_serialize:
  fixes A :: "('i::len word, 'e) any_array"
  assumes "exact ec" and "8 dvd LENGTH('i)" and "shape_ok A"
  shows "deserialize ec (layout_of A) (serialize ec A) = Inr A"
proof (cases A)
  case (Dense1d a)
  then show ?thesis using assms by (simp add: roundtrip_dense1d)
next
  case (Dense2d a)
  then show ?thesis using assms by (simp add: roundtrip_dense2d)
next
  case (Sparse2d a)
  then show ?thesis using assms by (simp add: roundtrip_sparse2d)
qed

text \<open>The test's matrix: small indices fit every index type of at least a byte.\<close>

lemma small_take_bit:
  assumes "8 dvd LENGTH('i::len)" and "numeral b < (256::nat)"
  shows "take_bit LENGTH('i) (numeral b :: nat) = numeral b"
proof -
  have "8 \<le> LENGTH('i)"
    using dvd_imp_le [OF assms(1)] by simp
  then have "(2::nat) ^ 8 \<le> 2 ^ LENGTH('i)"
    by (intro power_increasing) simp_all
  then have "(256::nat) \<le> 2 ^ LENGTH('i)"
    by simp
  then have "numeral b < (2::nat) ^ LENGTH('i)"
    by (rule less_le_trans [OF assms(2)])
  then show ?thesis
    by (simp add: take_bit_nat_eq_self)
qed

lemma row_dots_sparse_array:
  assumes "8 dvd LENGTH('i::len)"
  shows "row_dots (sparse_array :: ('i word, 'e::semiring_1) sparse_array2d) =
         [Some 50, Some 220, Some 740, Some 480]"
proof -
  have l: "2 \<le> LENGTH('i)" "LENGTH('i) \<noteq> Suc 0"
    using dvd_imp_le [OF assms] by simp_all
  show ?thesis
    by (simp add: row_dots_def sparse_array_def dot_array_def dot_sparse_def view_row_def
        small_take_bit [OF assms] l Let_def)
qed

lemma shape_ok_sparse_array: "shape_ok (Sparse2d sparse_array)"
  by (simp add: sparse_array_def)

section \<open>The vector operations\<close>

text \<open>Exactly one of the two structs is \<^verbatim>\<open>tick::vector_operations<T>\<close> in a build.\<close>

lemma vector_operations_selected:
  "vector_operations False catlas lib promote t = vector_operations_unoptimized promote"
  "vector_operations True catlas lib promote t = vector_operations_cblas catlas lib promote t"
  by (simp_all add: vector_operations_def)

text \<open>
  C3. For an element type other than \<^verbatim>\<open>float\<close> and \<^verbatim>\<open>double\<close>, every
  operation (\<^verbatim>\<open>dot\<close>, \<^verbatim>\<open>sum\<close>, \<^verbatim>\<open>scale\<close>, \<^verbatim>\<open>set\<close>,
  \<^verbatim>\<open>mult_incr\<close>) of the backend-delegating struct is the operation of the
  unoptimized struct: the same result and the same store for every input. For
  \<^verbatim>\<open>float\<close> and \<^verbatim>\<open>double\<close> too, its \<^verbatim>\<open>sum\<close> is the unoptimized
  \<^verbatim>\<open>sum\<close>, and so is its \<^verbatim>\<open>set\<close> unless the library's own \<^verbatim>\<open>set\<close>
  is compiled in.
\<close>

theorem cblas_refines_unoptimized:
  "(t \<noteq> Float \<and> t \<noteq> Double \<longrightarrow>
      vo_dot (vector_operations_cblas catlas lib promote t) = unoptimized_dot \<and>
      vo_sum (vector_operations_cblas catlas lib promote t) = unoptimized_sum promote \<and>
      vo_scale (vector_operations_cblas catlas lib promote t) = unoptimized_scale \<and>
      vo_set (vector_operations_cblas catlas lib promote t) = unoptimized_set \<and>
      vo_mult_incr (vector_operations_cblas catlas lib promote t) = unoptimized_mult_incr) \<and>
   vo_sum (vector_operations_cblas catlas lib promote t) = unoptimized_sum promote \<and>
   (\<not> catlas \<longrightarrow> vo_set (vector_operations_cblas catlas lib promote t) = unoptimized_set)"
  by (cases t)
     (auto simp: vector_operations_cblas_def vector_operations_unoptimized_def cblas_base_sum_def
        cblas_base_set_def fun_eq_iff)

theorem cblas_refines_unoptimized_witness:
  "Other \<noteq> Float \<and> Other \<noteq> Double \<and>
   vo_dot (vector_operations_cblas True no_cblas (\<lambda>v. v) Other) 2 0 2 (cells [1, 2, 3, 4 :: int]) =
     unoptimized_dot 2 0 2 (cells [1, 2, 3, 4]) \<and>
   unoptimized_dot 2 0 2 (cells [1, 2, 3, 4 :: int]) = Some (11, cells [1, 2, 3, 4]) \<and>
   vo_sum (vector_operations_cblas False no_cblas (\<lambda>v. v) Double) 2 0 (cells [1, 2, 3, 4 :: int]) =
     Some (3, cells [1, 2, 3, 4]) \<and>
   vo_set (vector_operations_cblas False no_cblas (\<lambda>v. v) Float) 2 7 1 (cells [1, 2, 3, 4 :: int]) =
     Some ((), cells [1, 7, 7, 4])"
proof -
  have o: "Other \<noteq> Float \<and> Other \<noteq> Double" by simp
  have 1: "vo_dot (vector_operations_cblas True no_cblas (\<lambda>v. v) Other) =
           (unoptimized_dot :: nat \<Rightarrow> ptr \<Rightarrow> ptr \<Rightarrow> (int, int) comp)"
    using cblas_refines_unoptimized [of Other True no_cblas "\<lambda>v::int. v"] by simp
  have 2: "vo_sum (vector_operations_cblas False no_cblas (\<lambda>v. v) Double) =
           unoptimized_sum (\<lambda>v::int. v)"
    using cblas_refines_unoptimized [of Double False no_cblas "\<lambda>v::int. v"] by simp
  have 3: "vo_set (vector_operations_cblas False no_cblas (\<lambda>v::int. v) Float) = unoptimized_set"
    using cblas_refines_unoptimized [of Float False no_cblas "\<lambda>v::int. v"] by simp
  have d: "unoptimized_dot 2 0 2 (cells [1, 2, 3, 4 :: int]) = Some (11, cells [1, 2, 3, 4])"
    by (simp add: unoptimized_dot_def dot_loop.simps read_at_def cells_apply)
  have s: "unoptimized_sum (\<lambda>v. v) 2 0 (cells [1, 2, 3, 4 :: int]) = Some (3, cells [1, 2, 3, 4])"
    by (simp add: unoptimized_sum_def accumulate.simps read_at_def cells_apply)
  have t: "unoptimized_set 2 7 1 (cells [1, 2, 3, 4 :: int]) = Some ((), cells [1, 7, 7, 4])"
    by (simp add: unoptimized_set_def set_loop.simps write_at_def cells_apply cells_upd)
  show ?thesis
    by (simp only: 1 2 3 d s t o) simp
qed

text \<open>
  C4 (amended). For buffers \<open>x\<close> and \<open>y\<close> of length at least \<open>n\<close> such that \<open>y\<close> does not
  start inside \<open>x[1..n)\<close> (they are the same buffer, or disjoint, or \<open>y\<close> starts before
  \<open>x\<close>), \<^verbatim>\<open>mult_incr(n, alpha, x, y)\<close> returns and leaves in each \<open>y[i]\<close>,
  \<open>i < n\<close>, the old \<open>y[i]\<close> plus \<open>alpha\<close> times the old \<open>x[i]\<close>.
\<close>

theorem mult_incr_adds_scaled:
  fixes alpha :: "'a::{plus,times}"
  assumes "valid m x n" and "valid m y n" and "\<not> (x < y \<and> y < x + n)"
  shows "\<exists>m'. unoptimized_mult_incr n alpha x y m = Some ((), m') \<and>
              (\<forall>i<n. elem m' y i = elem m y i + alpha * elem m x i)"
  using assms by (simp add: unoptimized_mult_incr_def mult_incr_loop_run elem_def)

theorem mult_incr_adds_scaled_witness:
  "valid (cells [1, 2, 10, 20::int]) 0 2 \<and> valid (cells [1, 2, 10, 20::int]) 2 2 \<and>
   \<not> ((0::nat) < 2 \<and> (2::nat) < 0 + 2) \<and>
   (\<exists>m'. unoptimized_mult_incr 2 3 0 2 (cells [1, 2, 10, 20::int]) = Some ((), m') \<and>
         elem m' 2 0 = 13 \<and> elem m' 2 1 = 26)"
proof -
  let ?m = "cells [1, 2, 10, 20::int]"
  have v1: "valid ?m 0 2" by (simp add: valid_cells)
  have v2: "valid ?m 2 2" by (simp add: valid_cells)
  have no: "\<not> ((0::nat) < 2 \<and> (2::nat) < 0 + 2)" by simp
  obtain m' where m': "unoptimized_mult_incr 2 (3::int) 0 2 ?m = Some ((), m')"
     "\<forall>i<2. elem m' 2 i = elem ?m 2 i + 3 * elem ?m 0 i"
    using mult_incr_adds_scaled [OF v1 v2 no, of 3] by blast
  have "elem m' 2 0 = 13" using m'(2) [rule_format, of 0] by (simp add: elem_def cells_def)
  moreover have "elem m' 2 1 = 26" using m'(2) [rule_format, of 1] by (simp add: elem_def cells_def)
  ultimately show ?thesis using v1 v2 no m'(1) by blast
qed

text \<open>
  Without the condition on the overlap the statement fails. Let \<open>y\<close> start one cell
  after \<open>x\<close>: on the block \<open>[1, 1, 1]\<close> with \<open>x\<close> at cell 0, \<open>y\<close> at cell 1,
  \<open>n = 2\<close> and \<open>alpha = 1\<close>, the first iteration writes \<open>x[1]\<close> (which is \<open>y[0]\<close>)
  before the second reads it, and \<open>y[1]\<close> ends as 3, not as the old \<open>y[1]\<close> plus the old
  \<open>x[1]\<close>, which is 2. Nor can \<open>x[i]\<close> be read after the call instead: with \<open>x\<close> and
  \<open>y\<close> the same one-cell buffer \<open>[1]\<close> and \<open>alpha = 1\<close>, the cell ends as 2, not as
  the old \<open>y[0]\<close> plus the new \<open>x[0]\<close>, which is 3.
\<close>

theorem mult_incr_overlap_counterexample:
  "valid (cells [1, 1, 1::int]) 0 2 \<and> valid (cells [1, 1, 1::int]) 1 2 \<and>
   unoptimized_mult_incr 2 1 0 1 (cells [1, 1, 1::int]) = Some ((), cells [1, 2, 3]) \<and>
   elem (cells [1, 2, 3::int]) 1 1 \<noteq> elem (cells [1, 1, 1]) 1 1 + 1 * elem (cells [1, 1, 1]) 0 1 \<and>
   valid (cells [1::int]) 0 1 \<and>
   unoptimized_mult_incr 1 1 0 0 (cells [1::int]) = Some ((), cells [2]) \<and>
   elem (cells [2::int]) 0 0 \<noteq> elem (cells [1]) 0 0 + 1 * elem (cells [2]) 0 0"
  by (simp add: valid_cells unoptimized_mult_incr_def mult_incr_loop.simps read_at_def write_at_def
       elem_def cells_apply cells_upd)

text \<open>
  C5. On a buffer of length at least \<open>n\<close>, \<^verbatim>\<open>sum(n, x)\<close> returns the left-to-right
  accumulation of \<open>x[0..n)\<close> in the promoted type, from the promoted zero, and changes
  nothing. For unsigned elements promoted by zero extension and for signed elements
  promoted by sign extension, the result is the exact sum of the element values whenever
  that sum is representable in the promoted type.
\<close>

theorem sum_sequential:
  fixes m :: "'a mem" and promote :: "'a \<Rightarrow> 'p::{zero,plus}"
    and mu :: "'u::len word mem" and ms :: "'s::len word mem"
  shows "(valid m x n \<longrightarrow>
           unoptimized_sum promote n x m = Some (foldl (\<lambda>acc v. acc + promote v) 0 (buf m x n), m)) \<and>
         (valid mu x n \<and> sum_list (map unat (buf mu x n)) < 2 ^ LENGTH('pu::len) \<longrightarrow>
           (\<exists>r :: 'pu word. unoptimized_sum ucast n x mu = Some (r, mu) \<and>
              unat r = sum_list (map unat (buf mu x n)))) \<and>
         (valid ms x n \<and> - (2 ^ (LENGTH('ps::len) - 1)) \<le> sum_list (map sint (buf ms x n)) \<and>
           sum_list (map sint (buf ms x n)) < 2 ^ (LENGTH('ps) - 1) \<longrightarrow>
           (\<exists>r :: 'ps word. unoptimized_sum scast n x ms = Some (r, ms) \<and>
              sint r = sum_list (map sint (buf ms x n))))"
  by (simp add: unoptimized_sum_run foldl_ucast_sum foldl_scast_sum unat_of_nat sint_of_int_in_range)

theorem sum_sequential_witness:
  "unoptimized_sum (\<lambda>v. v) 2 0 (cells [4, 5::int]) = Some (9, cells [4, 5]) \<and>
   (\<exists>r :: 64 word. unoptimized_sum ucast 2 0 (cells [200, 100 :: 8 word]) = Some (r, cells [200, 100]) \<and>
       unat r = 300) \<and>
   (\<exists>r :: 64 word. unoptimized_sum scast 2 0 (cells [127, 126 :: 8 word]) = Some (r, cells [127, 126]) \<and>
       sint r = 253)"
  using sum_sequential [of "cells [4, 5::int]" 0 2 "\<lambda>v. v" "cells [200, 100 :: 8 word]"
          "cells [127, 126 :: 8 word]",  where ?'pu = 64 and ?'ps = 64]
  by (simp add: valid_cells buf_cells)




text \<open>
  C9. With \<open>n = 0\<close> every operation of the unoptimized struct returns without touching
  the store, whatever the pointers and the store are: \<^verbatim>\<open>dot\<close> returns 0,
  \<^verbatim>\<open>sum\<close> the promoted 0, and \<^verbatim>\<open>scale\<close>, \<^verbatim>\<open>set\<close> and
  \<^verbatim>\<open>mult_incr\<close> leave the store as it was.
\<close>

theorem unoptimized_empty:
  "unoptimized_dot 0 x y m = Some (0, m) \<and>
   unoptimized_sum promote 0 x m = Some (0, m) \<and>
   unoptimized_scale 0 alpha x m = Some ((), m) \<and>
   unoptimized_set 0 alpha x m = Some ((), m) \<and>
   unoptimized_mult_incr 0 alpha x y m = Some ((), m)"
  by (simp add: unoptimized_dot_def unoptimized_sum_def unoptimized_scale_def unoptimized_set_def
      unoptimized_mult_incr_def dot_loop.simps accumulate.simps scale_loop.simps set_loop.simps
      mult_incr_loop.simps)

theorem unoptimized_empty_witness:
  "unoptimized_dot 0 0 0 (Map.empty :: int mem) = Some (0, Map.empty) \<and>
   unoptimized_sum (\<lambda>v. v) 0 0 (Map.empty :: int mem) = Some (0, Map.empty) \<and>
   unoptimized_scale 0 2 0 (Map.empty :: int mem) = Some ((), Map.empty) \<and>
   unoptimized_set 0 2 0 (Map.empty :: int mem) = Some ((), Map.empty) \<and>
   unoptimized_mult_incr 0 2 0 0 (Map.empty :: int mem) = Some ((), Map.empty)"
  by (rule unoptimized_empty)

text \<open>
  C10 (amended). On buffers of length at least \<open>n\<close>, \<^verbatim>\<open>dot\<close> and \<^verbatim>\<open>sum\<close>
  leave the store as it was; \<^verbatim>\<open>scale(n, alpha, x)\<close> and
  \<^verbatim>\<open>set(n, alpha, x)\<close> change no cell outside \<open>x[0..n)\<close>;
  \<^verbatim>\<open>mult_incr(n, alpha, x, y)\<close> changes no cell outside \<open>y[0..n)\<close>, so that an
  element of \<open>x\<close> is left as it was wherever it is not also an element of \<open>y[0..n)\<close>.
\<close>

theorem unoptimized_frame:
  fixes m :: "'a::{zero,plus,times} mem" and promote :: "'a \<Rightarrow> 'p::{zero,plus}"
  assumes "valid m x n" and "valid m y n"
  shows "(\<exists>r. unoptimized_dot n x y m = Some (r, m)) \<and>
         (\<exists>s. unoptimized_sum promote n x m = Some (s, m)) \<and>
         (\<exists>m'. unoptimized_scale n alpha x m = Some ((), m') \<and>
               (\<forall>a. \<not> (x \<le> a \<and> a < x + n) \<longrightarrow> m' a = m a)) \<and>
         (\<exists>m'. unoptimized_set n alpha x m = Some ((), m') \<and>
               (\<forall>a. \<not> (x \<le> a \<and> a < x + n) \<longrightarrow> m' a = m a)) \<and>
         (\<exists>m'. unoptimized_mult_incr n alpha x y m = Some ((), m') \<and>
               (\<forall>a. \<not> (y \<le> a \<and> a < y + n) \<longrightarrow> m' a = m a) \<and>
               (\<forall>i<n. \<not> (y \<le> x + i \<and> x + i < y + n) \<longrightarrow> elem m' x i = elem m x i))"
proof (intro conjI)
  show "\<exists>r. unoptimized_dot n x y m = Some (r, m)"
    by (simp add: unoptimized_dot_def dot_loop_run [OF assms])
  show "\<exists>s. unoptimized_sum promote n x m = Some (s, m)"
    by (simp add: unoptimized_sum_run [OF assms(1)])
  show "\<exists>m'. unoptimized_scale n alpha x m = Some ((), m') \<and>
               (\<forall>a. \<not> (x \<le> a \<and> a < x + n) \<longrightarrow> m' a = m a)"
    by (simp add: unoptimized_scale_def scale_loop_run [OF assms(1)])
  show "\<exists>m'. unoptimized_set n alpha x m = Some ((), m') \<and>
               (\<forall>a. \<not> (x \<le> a \<and> a < x + n) \<longrightarrow> m' a = m a)"
    by (simp add: unoptimized_set_def set_loop_run [OF assms(1)])
  show "\<exists>m'. unoptimized_mult_incr n alpha x y m = Some ((), m') \<and>
               (\<forall>a. \<not> (y \<le> a \<and> a < y + n) \<longrightarrow> m' a = m a) \<and>
               (\<forall>i<n. \<not> (y \<le> x + i \<and> x + i < y + n) \<longrightarrow> elem m' x i = elem m x i)"
    using mult_incr_loop_frame [OF assms, of alpha 0]
    by (auto simp: unoptimized_mult_incr_def elem_def)
qed

theorem unoptimized_frame_witness:
  "valid (cells [1, 2, 3, 4, 5::int]) 0 2 \<and> valid (cells [1, 2, 3, 4, 5::int]) 2 2 \<and>
   (\<exists>m'. unoptimized_mult_incr 2 10 0 2 (cells [1, 2, 3, 4, 5::int]) = Some ((), m') \<and>
         m' 0 = Some 1 \<and> m' 1 = Some 2 \<and> m' 4 = Some 5 \<and> elem m' 0 1 = 2) \<and>
   (\<exists>m'. unoptimized_scale 2 10 0 (cells [1, 2, 3, 4, 5::int]) = Some ((), m') \<and> m' 2 = Some 3) \<and>
   (\<exists>m'. unoptimized_set 2 10 0 (cells [1, 2, 3, 4, 5::int]) = Some ((), m') \<and> m' 2 = Some 3) \<and>
   (\<exists>r. unoptimized_dot 2 0 2 (cells [1, 2, 3, 4, 5::int]) = Some (r, cells [1, 2, 3, 4, 5])) \<and>
   (\<exists>s. unoptimized_sum (\<lambda>v. v) 2 0 (cells [1, 2, 3, 4, 5::int]) = Some (s, cells [1, 2, 3, 4, 5]))"
proof -
  let ?m = "cells [1, 2, 3, 4, 5::int]"
  have v1: "valid ?m 0 2" by (simp add: valid_cells)
  have v2: "valid ?m 2 2" by (simp add: valid_cells)
  have f: "(\<exists>r. unoptimized_dot 2 0 2 ?m = Some (r, ?m)) \<and>
         (\<exists>s. unoptimized_sum (\<lambda>v. v) 2 0 ?m = Some (s, ?m)) \<and>
         (\<exists>m'. unoptimized_scale 2 10 0 ?m = Some ((), m') \<and>
               (\<forall>a. \<not> (0 \<le> a \<and> a < 0 + 2) \<longrightarrow> m' a = ?m a)) \<and>
         (\<exists>m'. unoptimized_set 2 10 0 ?m = Some ((), m') \<and>
               (\<forall>a. \<not> (0 \<le> a \<and> a < 0 + 2) \<longrightarrow> m' a = ?m a)) \<and>
         (\<exists>m'. unoptimized_mult_incr 2 10 0 2 ?m = Some ((), m') \<and>
               (\<forall>a. \<not> (2 \<le> a \<and> a < 2 + 2) \<longrightarrow> m' a = ?m a) \<and>
               (\<forall>i<2. \<not> (2 \<le> 0 + i \<and> 0 + i < 2 + 2) \<longrightarrow> elem m' 0 i = elem ?m 0 i))"
    by (rule unoptimized_frame [OF v1 v2])
  then obtain m1 where m1: "unoptimized_mult_incr 2 10 0 2 ?m = Some ((), m1)"
      "\<forall>a. \<not> (2 \<le> a \<and> a < 2 + 2) \<longrightarrow> m1 a = ?m a"
      "\<forall>i<2. \<not> (2 \<le> 0 + i \<and> 0 + i < 2 + 2) \<longrightarrow> elem m1 0 i = elem ?m 0 i"
    by blast
  from f obtain m2 where m2: "unoptimized_scale 2 10 0 ?m = Some ((), m2)"
      "\<forall>a. \<not> (0 \<le> a \<and> a < 0 + 2) \<longrightarrow> m2 a = ?m a"
    by blast
  from f obtain m3 where m3: "unoptimized_set 2 10 0 ?m = Some ((), m3)"
      "\<forall>a. \<not> (0 \<le> a \<and> a < 0 + 2) \<longrightarrow> m3 a = ?m a"
    by blast
  have a: "m1 0 = Some 1" "m1 1 = Some 2" "m1 4 = Some 5"
    using m1(2) [rule_format, of 0] m1(2) [rule_format, of 1] m1(2) [rule_format, of 4]
    by (simp_all add: cells_apply)
  have b: "elem m1 0 1 = 2"
    using m1(3) [rule_format, of 1] by (simp add: elem_def cells_apply)
  have c: "m2 2 = Some 3" "m3 2 = Some 3"
    using m2(2) [rule_format, of 2] m3(2) [rule_format, of 2] by (simp_all add: cells_apply)
  from f have d: "\<exists>r. unoptimized_dot 2 0 2 ?m = Some (r, ?m)"
    and e: "\<exists>s. unoptimized_sum (\<lambda>v. v) 2 0 ?m = Some (s, ?m)"
    by blast+
  show ?thesis
    using v1 v2 m1(1) m2(1) m3(1) a b c d e by blast
qed

text \<open>
  That \<^verbatim>\<open>mult_incr\<close> never changes \<open>x\<close> fails where \<open>x\<close> and \<open>y\<close> are the
  same buffer: on the one-cell block \<open>[5]\<close> with \<open>x = y\<close>, \<open>n = 1\<close> and
  \<open>alpha = 2\<close>, the cell \<open>x[0]\<close> ends as 15.
\<close>

theorem mult_incr_alias_counterexample:
  "valid (cells [5::int]) 0 1 \<and>
   unoptimized_mult_incr 1 2 0 0 (cells [5::int]) = Some ((), cells [15]) \<and>
   elem (cells [15::int]) 0 0 \<noteq> elem (cells [5]) 0 0"
  by (simp add: valid_cells unoptimized_mult_incr_def mult_incr_loop.simps read_at_def write_at_def
      elem_def cells_apply cells_upd)

section \<open>The array layer\<close>

text \<open>
  C7. \<^verbatim>\<open>dot\<close> on two dense arrays whose sizes differ fails with
  \<open>DimensionMismatch\<close>, and on two arrays of the same size it does not.
\<close>

theorem array_dot_dimension_mismatch:
  "(size_1d a \<noteq> size_1d b \<longrightarrow> array_dot ops a b = Inl DimensionMismatch) \<and>
   (size_1d a = size_1d b \<longrightarrow> array_dot ops a b \<noteq> Inl DimensionMismatch)"
  by (simp add: array_dot_def)

theorem array_dot_dimension_mismatch_witness:
  "array_dot (vector_operations_unoptimized (\<lambda>v. v))
     \<lparr>size_1d = 2, data_1d = [1, 2 :: int]\<rparr> \<lparr>size_1d = 3, data_1d = [1, 2, 3]\<rparr> =
     Inl DimensionMismatch \<and>
   array_dot (vector_operations_unoptimized (\<lambda>v. v))
     \<lparr>size_1d = 2, data_1d = [1, 2 :: int]\<rparr> \<lparr>size_1d = 2, data_1d = [3, 4]\<rparr> \<noteq>
     Inl DimensionMismatch"
  using array_dot_dimension_mismatch
     [of "\<lparr>size_1d = 2, data_1d = [1, 2 :: int]\<rparr>" "\<lparr>size_1d = 3, data_1d = [1, 2, 3]\<rparr>"
         "vector_operations_unoptimized (\<lambda>v. v)"]
    array_dot_dimension_mismatch
     [of "\<lparr>size_1d = 2, data_1d = [1, 2 :: int]\<rparr>" "\<lparr>size_1d = 2, data_1d = [3, 4]\<rparr>"
         "vector_operations_unoptimized (\<lambda>v. v)"]
  by simp

text \<open>With matching sizes the call reaches the primitive: \<open>1 * 3 + 2 * 4 = 11\<close>.\<close>

lemma array_dot_example:
  "array_dot (vector_operations_unoptimized (\<lambda>v. v))
     \<lparr>size_1d = 2, data_1d = [1, 2 :: int]\<rparr> \<lparr>size_1d = 2, data_1d = [3, 4]\<rparr> = Inr (Some 11)"
  by (simp add: array_dot_def vector_operations_unoptimized_def unoptimized_dot_def
      dot_loop.simps read_at_def cells_apply)

text \<open>
  C2. For the CSR matrix and the dense vector of the test, the dot products of the
  vector with the rows 0, 1, 2, 3 are 50, 220, 740 and 480, on the matrix itself and on
  the matrix read back from its serialized bytes, which has 4 rows and 6 columns. The
  element type is any semiring with 1 whose codec is exact, the index type any word of
  whole bytes.
\<close>

theorem sparse_dot_example:
  fixes ec :: "'e::semiring_1 codec"
  assumes "exact ec" and "8 dvd LENGTH('i::len)"
  shows "row_dots (sparse_array :: ('i word, 'e) sparse_array2d) =
           [Some 50, Some 220, Some 740, Some 480] \<and>
         (\<exists>loaded_array :: ('i word, 'e) sparse_array2d.
            deserialize ec Sparse2dT
              (serialize ec (Sparse2d (sparse_array :: ('i word, 'e) sparse_array2d))) =
              Inr (Sparse2d loaded_array) \<and>
            n_rows loaded_array = 4 \<and> n_cols loaded_array = 6 \<and>
            row_dots loaded_array = [Some 50, Some 220, Some 740, Some 480])"
proof
  show "row_dots (sparse_array :: ('i word, 'e) sparse_array2d) =
           [Some 50, Some 220, Some 740, Some 480]"
    by (rule row_dots_sparse_array [OF assms(2)])
next
  have "deserialize ec Sparse2dT (serialize ec (Sparse2d (sparse_array :: ('i word, 'e) sparse_array2d))) =
        Inr (Sparse2d (sparse_array :: ('i word, 'e) sparse_array2d))"
    using deserialize_serialize [OF assms shape_ok_sparse_array] by (simp only: layout_of.simps)
  moreover have "n_rows (sparse_array :: ('i word, 'e) sparse_array2d) = 4"
     "n_cols (sparse_array :: ('i word, 'e) sparse_array2d) = 6"
    by (simp_all add: sparse_array_def)
  ultimately show "\<exists>loaded_array :: ('i word, 'e) sparse_array2d.
            deserialize ec Sparse2dT
              (serialize ec (Sparse2d (sparse_array :: ('i word, 'e) sparse_array2d))) =
              Inr (Sparse2d loaded_array) \<and>
            n_rows loaded_array = 4 \<and> n_cols loaded_array = 6 \<and>
            row_dots loaded_array = [Some 50, Some 220, Some 740, Some 480]"
    using row_dots_sparse_array [OF assms(2), where ?'e = 'e] by blast
qed

theorem sparse_dot_example_witness:
  "exact (word_codec :: 64 word codec) \<and> 8 dvd LENGTH(32) \<and>
   row_dots (sparse_array :: (32 word, 64 word) sparse_array2d) =
     [Some 50, Some 220, Some 740, Some 480] \<and>
   (\<exists>loaded_array :: (32 word, 64 word) sparse_array2d.
      deserialize word_codec Sparse2dT
        (serialize word_codec (Sparse2d (sparse_array :: (32 word, 64 word) sparse_array2d))) =
        Inr (Sparse2d loaded_array) \<and>
      n_rows loaded_array = 4 \<and> n_cols loaded_array = 6 \<and>
      row_dots loaded_array = [Some 50, Some 220, Some 740, Some 480])"
proof -
  have e: "exact (word_codec :: 64 word codec)" by (simp add: exact_word_codec)
  have d: "8 dvd LENGTH(32)" by simp
  from sparse_dot_example [OF e d] e d show ?thesis by blast
qed

text \<open>
  C1. An array that satisfies the length invariants of the data model, dense or sparse,
  is read back from its serialized bytes as it was: the same shape fields, the same
  \<^verbatim>\<open>row_indices\<close> and \<^verbatim>\<open>indices\<close>, and the same elements bit for bit, for
  single-precision (32-bit) and for double-precision (64-bit) elements.
\<close>

theorem serialize_roundtrip:
  fixes A :: "('i::len word, 32 word) any_array" and B :: "('i word, 64 word) any_array"
  assumes "8 dvd LENGTH('i)" and "shape_ok A" and "shape_ok B"
  shows "deserialize float_codec (layout_of A) (serialize float_codec A) = Inr A \<and>
         deserialize double_codec (layout_of B) (serialize double_codec B) = Inr B"
  using assms by (simp add: deserialize_serialize exact_float_codec exact_double_codec)

theorem serialize_roundtrip_witness:
  "8 dvd LENGTH(32) \<and>
   shape_ok (Sparse2d \<lparr>n_rows = 2, n_cols = 3, row_indices = [0, 1, 2 :: 32 word],
                        indices = [2, 0], data = [0x3F800000, 0xC0000000 :: 32 word]\<rparr>) \<and>
   shape_ok (Dense2d \<lparr>n_rows_2d = 1, n_cols_2d = 2,
                       data_2d = [0x3FF0000000000000, 0x7FF8000000000001 :: 64 word]\<rparr>
              :: (32 word, 64 word) any_array) \<and>
   deserialize float_codec Sparse2dT
     (serialize float_codec
        (Sparse2d \<lparr>n_rows = 2, n_cols = 3, row_indices = [0, 1, 2 :: 32 word],
                   indices = [2, 0], data = [0x3F800000, 0xC0000000 :: 32 word]\<rparr>)) =
     Inr (Sparse2d \<lparr>n_rows = 2, n_cols = 3, row_indices = [0, 1, 2 :: 32 word],
                    indices = [2, 0], data = [0x3F800000, 0xC0000000 :: 32 word]\<rparr>) \<and>
   deserialize double_codec Dense2dT
     (serialize double_codec
        (Dense2d \<lparr>n_rows_2d = 1, n_cols_2d = 2,
                  data_2d = [0x3FF0000000000000, 0x7FF8000000000001 :: 64 word]\<rparr>
          :: (32 word, 64 word) any_array)) =
     Inr (Dense2d \<lparr>n_rows_2d = 1, n_cols_2d = 2,
                   data_2d = [0x3FF0000000000000, 0x7FF8000000000001 :: 64 word]\<rparr>
          :: (32 word, 64 word) any_array)"
proof -
  let ?A = "Sparse2d \<lparr>n_rows = 2, n_cols = 3, row_indices = [0, 1, 2 :: 32 word],
                        indices = [2, 0], data = [0x3F800000, 0xC0000000 :: 32 word]\<rparr>"
  let ?B = "Dense2d \<lparr>n_rows_2d = 1, n_cols_2d = 2,
                       data_2d = [0x3FF0000000000000, 0x7FF8000000000001 :: 64 word]\<rparr>
              :: (32 word, 64 word) any_array"
  have d: "8 dvd LENGTH(32)" by simp
  have a: "shape_ok ?A" by simp
  have b: "shape_ok ?B" by simp
  from serialize_roundtrip [OF d a b] d a b show ?thesis
    by (simp del: shape_ok.simps deserialize.simps serialize.simps)
qed

text \<open>
  C8. Decoding any byte sequence either fails with an error, or returns an array of the
  requested type that satisfies the length invariants and whose serialization is
  exactly the bytes decoded: nothing is returned from a part of the input.
\<close>

theorem deserialize_atomic:
  fixes ec :: "'e codec" and t :: layout and bs :: "byte list"
  assumes "exact ec" and "8 dvd LENGTH('i::len)"
  shows "(\<exists>e. (deserialize ec t bs :: error + ('i word, 'e) any_array) = Inl e) \<or>
         (\<exists>A :: ('i word, 'e) any_array.
             deserialize ec t bs = Inr A \<and> layout_of A = t \<and> shape_ok A \<and> serialize ec A = bs)"
proof (cases t)
  case Dense1dT
  show ?thesis
  proof (cases "deserialize_dense1d ec bs")
    case (Inl e)
    then show ?thesis by (simp add: Dense1dT)
  next
    case (Inr a)
    then show ?thesis
      using deserialize_dense1d_Inr [OF assms(1) Inr] by (simp add: Dense1dT)
  qed
next
  case Dense2dT
  show ?thesis
  proof (cases "deserialize_dense2d ec bs")
    case (Inl e)
    then show ?thesis by (simp add: Dense2dT)
  next
    case (Inr a)
    then show ?thesis
      using deserialize_dense2d_Inr [OF assms(1) Inr] by (simp add: Dense2dT)
  qed
next
  case Sparse2dT
  show ?thesis
  proof (cases "deserialize_sparse2d ec bs :: error + ('i word, 'e) sparse_array2d")
    case (Inl e)
    then show ?thesis by (simp add: Sparse2dT)
  next
    case (Inr a)
    then show ?thesis
      using deserialize_sparse2d_Inr [OF assms(1) assms(2) Inr] by (simp add: Sparse2dT)
  qed
qed

theorem deserialize_atomic_witness:
  "exact double_codec \<and> 8 dvd LENGTH(32) \<and>
   (deserialize double_codec Dense1dT [1, 0, 0] :: error + (32 word, 64 word) any_array) =
     Inl CorruptData \<and>
   \<not> (\<exists>A :: (32 word, 64 word) any_array. deserialize double_codec Dense1dT [1, 0, 0] = Inr A)"
proof -
  have d: "8 dvd LENGTH(32)" by simp
  have c: "(deserialize double_codec Dense1dT [1, 0, 0] :: error + (32 word, 64 word) any_array) =
           Inl CorruptData"
    by (simp add: deserialize_dense1d_def get_ulong_short)
  from deserialize_atomic [OF exact_double_codec d, of Dense1dT "[1, 0, 0]"] c exact_double_codec d
  show ?thesis by simp
qed

end
